theory Spec2Isabelle
  imports Main "HOL-Library.Word"
begin

section \<open>Decodificador PRT-7: the rotor, the payload list, the frame parser and the session loop\<close>

text \<open>
  A shallow embedding of \<^verbatim>\<open>src/main.cpp\<close>. The two linked structures of the program
  live in an explicit store: a store is the list of the nodes allocated so far, the address
  of a node is its index in that list, \<^verbatim>\<open>new\<close> appends a node, and a pointer is an
  optional address (\<open>None\<close> is \<^verbatim>\<open>nullptr\<close>). Following a null or dangling pointer has no
  defined result in C++; every function that follows pointers returns an option, and
  \<open>None\<close> stands for the run that does not return normally.

  The type \<^verbatim>\<open>int\<close> is a 32-bit word. Signed overflow is undefined in C++; it is
  modelled as wrap-around modulo \<open>2 ^ 32\<close>, which is what the arithmetic instructions of the
  usual targets do.
\<close>

type_synonym int32 = "32 word"
type_synonym ptr = "nat option"

subsection \<open>Nodes and stores\<close>

record NodoRotor =
  dato :: char
  siguiente :: ptr
  previo :: ptr

text \<open>\<^verbatim>\<open>NodoRotor(char d) : dato(d), siguiente(nullptr), previo(nullptr)\<close>\<close>

definition nuevo_NodoRotor :: "char \<Rightarrow> NodoRotor" where
  "nuevo_NodoRotor d = \<lparr>dato = d, siguiente = None, previo = None\<rparr>"

text \<open>Reading through a pointer: defined only for the address of an allocated node.\<close>

definition deref :: "'n list \<Rightarrow> ptr \<Rightarrow> 'n option" where
  "deref h p = (case p of None \<Rightarrow> None | Some a \<Rightarrow> if a < length h then Some (h ! a) else None)"

subsection \<open>RotorDeMapeo\<close>

record RotorDeMapeo =
  nodos :: "NodoRotor list"
  cabeza :: ptr

definition alfabeto :: string where
  "alfabeto = ''ABCDEFGHIJKLMNOPQRSTUVWXYZ''"

definition longitud_alfabeto :: nat where
  "longitud_alfabeto = 26"

text \<open>
  One round of the constructor's loop, for the index \<open>i\<close>: allocate \<^verbatim>\<open>nuevo\<close> with
  \<^verbatim>\<open>alfabeto[i]\<close>, set \<^verbatim>\<open>actual->siguiente = nuevo\<close> and \<^verbatim>\<open>nuevo->previo = actual\<close>,
  and move \<^verbatim>\<open>actual\<close> to the new node. The state of the loop is the store and the
  address held by \<^verbatim>\<open>actual\<close>.
\<close>

definition enlazar :: "nat \<Rightarrow> NodoRotor list \<times> nat \<Rightarrow> NodoRotor list \<times> nat" where
  "enlazar i st =
     (case st of (h, actual) \<Rightarrow>
        let nuevo = length h;
            h1 = h @ [nuevo_NodoRotor (alfabeto ! i)];
            h2 = h1[actual := (h1 ! actual)\<lparr>siguiente := Some nuevo\<rparr>];
            h3 = h2[nuevo := (h2 ! nuevo)\<lparr>previo := Some actual\<rparr>]
        in (h3, nuevo))"

text \<open>
  The constructor: the head node holds \<^verbatim>\<open>alfabeto[0]\<close> at address 0, the loop runs for
  \<open>i = 1, ..., 25\<close>, and the circle is closed by \<^verbatim>\<open>actual->siguiente = cabeza\<close> and
  \<^verbatim>\<open>cabeza->previo = actual\<close>.
\<close>

definition RotorDeMapeo_nuevo :: RotorDeMapeo where
  "RotorDeMapeo_nuevo =
     (let cab = 0;
          h0 = [nuevo_NodoRotor (alfabeto ! 0)];
          (h, actual) = fold enlazar [1..<longitud_alfabeto] (h0, cab);
          h' = h[actual := (h ! actual)\<lparr>siguiente := Some cab\<rparr>];
          h'' = h'[cab := (h' ! cab)\<lparr>previo := Some actual\<rparr>]
      in \<lparr>nodos = h'', cabeza = Some cab\<rparr>)"

text \<open>
  The three counting loops of the class have one shape,
  \<^verbatim>\<open>for (int i = 0; i < N; i++) p = p->campo;\<close>
  with \<^verbatim>\<open>campo\<close> being \<^verbatim>\<open>siguiente\<close> (forward rotation, and the walk of \<^verbatim>\<open>getMapeo\<close>)
  or \<^verbatim>\<open>previo\<close> (backward rotation). The counter and the bound are \<^verbatim>\<open>int\<close>, compared
  as signed numbers.
\<close>

function recorrer :: "(NodoRotor \<Rightarrow> ptr) \<Rightarrow> NodoRotor list \<Rightarrow> ptr \<Rightarrow> int32 \<Rightarrow> int32 \<Rightarrow> ptr option" where
  "recorrer campo h p i N =
     (if i <s N
      then (case deref h p of
              None \<Rightarrow> None
            | Some n \<Rightarrow> recorrer campo h (campo n) (i + 1) N)
      else Some p)"
  by pat_completeness auto

termination
proof (relation "measure (\<lambda>(campo, h, p, i, N). nat (sint N - sint i))")
  show "wf (measure (\<lambda>(campo, h, p, i, N). nat (sint N - sint i)))"
    by simp
next
  fix campo :: "NodoRotor \<Rightarrow> ptr" and h :: "NodoRotor list" and p :: ptr
    and i N :: int32 and x2 :: NodoRotor
  assume "i <s N"
  then have lt: "sint i < sint N"
    by (simp add: word_sless_alt)
  have "sint N < 2 ^ 31" "- (2 ^ 31) \<le> sint i"
    using sint_lt [of N] sint_ge [of i] by simp_all
  with lt have "signed_take_bit 31 (sint i + 1) = sint i + 1"
    by (intro signed_take_bit_int_eq_self) auto
  then have "sint (i + 1) = sint i + 1"
    by (simp add: sint_word_ariths)
  with lt show "((campo, h, campo x2, i + 1, N), (campo, h, p, i, N))
      \<in> measure (\<lambda>(campo, h, p, i, N). nat (sint N - sint i))"
    by simp
qed

text \<open>
  \<^verbatim>\<open>void rotar(int N)\<close>. In the backward branch the parameter is negated in place;
  for the most negative \<^verbatim>\<open>int\<close> the negation wraps to the same value.
\<close>

definition rotar :: "RotorDeMapeo \<Rightarrow> int32 \<Rightarrow> RotorDeMapeo option" where
  "rotar r N =
     (if N = 0 then Some r
      else if 0 <s N then
        map_option (\<lambda>p. r\<lparr>cabeza := p\<rparr>) (recorrer siguiente (nodos r) (cabeza r) 0 N)
      else
        (let N' = - N
         in map_option (\<lambda>p. r\<lparr>cabeza := p\<rparr>) (recorrer previo (nodos r) (cabeza r) 0 N')))"

text \<open>
  The value of a \<^verbatim>\<open>char\<close> in a comparison or a subtraction, after integer promotion.
  Plain \<^verbatim>\<open>char\<close> is read as signed, as on x86; \<open>rango_sin_signo\<close> and
  \<open>digito_sin_signo\<close> below show that the range tests of the program come out the same
  when it is unsigned.
\<close>

definition valor_char :: "char \<Rightarrow> int" where
  "valor_char c = sint (of_char c :: 8 word)"

text \<open>\<^verbatim>\<open>char getMapeo(char in)\<close>; the rotor is read, never written.\<close>

definition getMapeo :: "RotorDeMapeo \<Rightarrow> char \<Rightarrow> char option" where
  "getMapeo r c =
     (if c = CHR '' '' then Some (CHR '' '')
      else if valor_char c < valor_char (CHR ''A'') \<or> valor_char c > valor_char (CHR ''Z'')
      then Some c
      else
        (let posicionDelCaracter = (word_of_int (valor_char c - valor_char (CHR ''A'')) :: int32)
         in case recorrer siguiente (nodos r) (cabeza r) 0 posicionDelCaracter of
              None \<Rightarrow> None
            | Some resultado \<Rightarrow> map_option dato (deref (nodos r) resultado)))"

subsection \<open>ListaDeCarga\<close>

text \<open>
  \<^verbatim>\<open>NodoCarga\<close> and \<^verbatim>\<open>ListaDeCarga\<close> have the field names of the rotor's types; the
  fields of the payload list carry the suffix \<open>_c\<close> here.
\<close>

record NodoCarga =
  dato_c :: char
  siguiente_c :: ptr
  previo_c :: ptr

definition nuevo_NodoCarga :: "char \<Rightarrow> NodoCarga" where
  "nuevo_NodoCarga d = \<lparr>dato_c = d, siguiente_c = None, previo_c = None\<rparr>"

record ListaDeCarga =
  celdas :: "NodoCarga list"
  cabeza_c :: ptr
  cola_c :: ptr

definition ListaDeCarga_nueva :: ListaDeCarga where
  "ListaDeCarga_nueva = \<lparr>celdas = [], cabeza_c = None, cola_c = None\<rparr>"

text \<open>
  \<^verbatim>\<open>void insertarAlFinal(char dato)\<close>. In the second branch the tail pointer is followed
  (\<^verbatim>\<open>cola->siguiente = nuevo\<close>), which needs it to point to a node.
\<close>

definition insertarAlFinal :: "ListaDeCarga \<Rightarrow> char \<Rightarrow> ListaDeCarga option" where
  "insertarAlFinal l d =
     (let nuevo = length (celdas l);
          h1 = celdas l @ [nuevo_NodoCarga d]
      in if cabeza_c l = None
         then Some \<lparr>celdas = h1, cabeza_c = Some nuevo, cola_c = Some nuevo\<rparr>
         else (case cola_c l of
                 None \<Rightarrow> None
               | Some t \<Rightarrow>
                   if t < length h1
                   then (let h2 = h1[t := (h1 ! t)\<lparr>siguiente_c := Some nuevo\<rparr>];
                             h3 = h2[nuevo := (h2 ! nuevo)\<lparr>previo_c := Some t\<rparr>]
                         in Some \<lparr>celdas = h3, cabeza_c = cabeza_c l, cola_c = Some nuevo\<rparr>)
                   else None))"

text \<open>What is sent to \<^verbatim>\<open>cout\<close>, one item for each \<^verbatim>\<open><<\<close>.\<close>

datatype Salida = Texto string | Car char | Entero int32 | Endl

text \<open>
  The loop of \<^verbatim>\<open>imprimirMensaje\<close>: \<^verbatim>\<open>while (actual != nullptr)\<close> prints the node's
  character and moves to \<^verbatim>\<open>actual->siguiente\<close>. Nothing bounds the walk, so the function
  is partial: \<open>None\<close> is the walk that never ends (a cycle) or leaves the store.
\<close>

partial_function (option) imprimir_desde :: "NodoCarga list \<Rightarrow> ptr \<Rightarrow> Salida list \<Rightarrow> Salida list option" where
  "imprimir_desde h actual out =
     (case actual of
        None \<Rightarrow> Some out
      | Some a \<Rightarrow>
          if a < length h
          then imprimir_desde h (siguiente_c (h ! a)) (out @ [Car (dato_c (h ! a))])
          else None)"

declare imprimir_desde.simps [code]

text \<open>\<^verbatim>\<open>void imprimirMensaje()\<close>: the characters of the list, then \<^verbatim>\<open>endl\<close>.\<close>

definition imprimirMensaje :: "ListaDeCarga \<Rightarrow> Salida list option" where
  "imprimirMensaje l = map_option (\<lambda>out. out @ [Endl]) (imprimir_desde (celdas l) (cabeza_c l) [])"

subsection \<open>Frames and the parser\<close>

text \<open>
  The two subclasses of \<^verbatim>\<open>TramaBase\<close>, each with its one field; the null pointer that
  \<^verbatim>\<open>parsearLinea\<close> returns for a rejected line is \<open>None\<close>.
\<close>

datatype Trama = TramaLoad char | TramaMap int32

text \<open>
  A line is the content of the buffer before its terminator; \<^verbatim>\<open>linea[k]\<close> at the end of
  the content reads the terminating NUL. The code reads no position after the first NUL.
\<close>

definition en :: "string \<Rightarrow> nat \<Rightarrow> char" where
  "en linea k = (if k < length linea then linea ! k else CHR 0x00)"

text \<open>\<^verbatim>\<open>while (linea[longitud] != '\0') longitud++;\<close>\<close>

fun longitud_c :: "string \<Rightarrow> nat" where
  "longitud_c [] = 0"
| "longitud_c (c # cs) = (if c = CHR 0x00 then 0 else Suc (longitud_c cs))"

definition es_digito :: "char \<Rightarrow> bool" where
  "es_digito c \<longleftrightarrow> valor_char (CHR ''0'') \<le> valor_char c \<and> valor_char c \<le> valor_char (CHR ''9'')"

text \<open>
  The digit loop of the \<^verbatim>\<open>'M'\<close> branch, returning the final \<^verbatim>\<open>indice\<close> and
  \<^verbatim>\<open>numero\<close>. The accumulation is 32-bit arithmetic, wrapping on overflow.
\<close>

function leer_digitos :: "string \<Rightarrow> nat \<Rightarrow> int32 \<Rightarrow> nat \<times> int32" where
  "leer_digitos linea indice numero =
     (if es_digito (en linea indice)
      then leer_digitos linea (indice + 1)
             (numero * 10 + word_of_int (valor_char (en linea indice) - valor_char (CHR ''0'')))
      else (indice, numero))"
  by pat_completeness auto
termination
proof (relation "measure (\<lambda>(linea, indice, numero). length linea - indice)")
  show "wf (measure (\<lambda>(linea, indice, numero). length linea - indice))"
    by simp
next
  fix linea :: string and indice :: nat and numero :: int32
  assume "es_digito (en linea indice)"
  then have "indice < length linea"
    by (auto simp: es_digito_def en_def valor_char_def split: if_splits)
  then show "((linea, indice + 1, numero * 10 + word_of_int (valor_char (en linea indice) - valor_char (CHR ''0''))),
              (linea, indice, numero))
      \<in> measure (\<lambda>(linea, indice, numero). length linea - indice)"
    by simp
qed

text \<open>\<^verbatim>\<open>TramaBase* parsearLinea(char* linea)\<close>\<close>

definition parsearLinea :: "string \<Rightarrow> Trama option" where
  "parsearLinea linea =
     (let longitud = longitud_c linea
      in if longitud < 3 then None
         else
           (let tipo = en linea 0
            in if en linea 1 \<noteq> CHR '','' then None
               else if tipo = CHR ''L'' then Some (TramaLoad (en linea 2))
               else if tipo = CHR ''M'' then
                 (let (signo, indice) = (if en linea 2 = CHR ''-'' then (- 1, 3) else (1, 2));
                      (indice', numero) = leer_digitos linea indice 0
                  in if indice' = 2 \<or> (signo = - 1 \<and> indice' = 3) then None
                     else Some (TramaMap (numero * signo)))
               else None))"

subsection \<open>Processing a frame\<close>

text \<open>The objects that \<^verbatim>\<open>main\<close> owns, and the output written so far.\<close>

record Sesion =
  miListaDeCarga :: ListaDeCarga
  miRotorDeMapeo :: RotorDeMapeo
  salida :: "Salida list"

definition escribir :: "Salida list \<Rightarrow> Sesion \<Rightarrow> Sesion" where
  "escribir items s = s\<lparr>salida := salida s @ items\<rparr>"

definition comilla :: char where
  "comilla = CHR 0x27"

text \<open>
  \<^verbatim>\<open>TramaLoad::procesar\<close> and \<^verbatim>\<open>TramaMap::procesar\<close>, chosen by the frame's class.
\<close>

fun procesar :: "Trama \<Rightarrow> Sesion \<Rightarrow> Sesion option" where
  "procesar (TramaLoad caracter) s =
     (case getMapeo (miRotorDeMapeo s) caracter of
        None \<Rightarrow> None
      | Some decodificado \<Rightarrow>
          (case insertarAlFinal (miListaDeCarga s) decodificado of
             None \<Rightarrow> None
           | Some carga \<Rightarrow>
               Some (escribir
                 [Texto (''Fragmento '' @ [comilla]), Car caracter,
                  Texto ([comilla] @ '' decodificado como '' @ [comilla]), Car decodificado,
                  Texto ([comilla] @ ''.''), Endl]
                 (s\<lparr>miListaDeCarga := carga\<rparr>))))"
| "procesar (TramaMap rotacion) s =
     (case rotar (miRotorDeMapeo s) rotacion of
        None \<Rightarrow> None
      | Some rotor \<Rightarrow>
          Some (escribir
            (if 0 <s rotacion
             then [Texto ''ROTANDO ROTOR +'', Entero rotacion, Endl]
             else [Texto ''ROTANDO ROTOR '', Entero rotacion, Endl])
            (s\<lparr>miRotorDeMapeo := rotor\<rparr>)))"

subsection \<open>The main loop\<close>

text \<open>
  \<^verbatim>\<open>cout << linea\<close> prints the buffer up to its first NUL.
\<close>

definition c_str :: "string \<Rightarrow> string" where
  "c_str linea = takeWhile (\<lambda>c. c \<noteq> CHR 0x00) linea"

text \<open>
  One round of \<^verbatim>\<open>while (true)\<close> in \<^verbatim>\<open>main\<close>, for a line that \<^verbatim>\<open>leerLineaSerial\<close>
  has delivered: the round ends in \<^verbatim>\<open>continue\<close> (or at the end of the body), in
  \<^verbatim>\<open>break\<close>, or it does not end normally.
\<close>

datatype Paso = Sigue Sesion | Sale Sesion | Falla

definition paso :: "Sesion \<Rightarrow> string \<Rightarrow> Paso" where
  "paso s linea =
     (if en linea 0 = CHR 0x00 then Sigue s
      else if en linea 0 = CHR ''I''
      then Sigue (escribir [Texto ''--- Inicio de transmision ---'', Endl, Endl] s)
      else if en linea 0 = CHR ''F'' \<and> en linea 1 = CHR ''I'' \<and> en linea 2 = CHR ''N''
      then Sale (escribir [Endl, Texto ''--- Fin de transmision ---'', Endl] s)
      else
        (let s1 = escribir [Texto ''Trama: ['', Texto (c_str linea), Texto ''] -> ''] s
         in case parsearLinea linea of
              None \<Rightarrow> Sigue (escribir [Texto ''ERROR: Trama mal formada'', Endl] s1)
            | Some trama \<Rightarrow>
                (case procesar trama s1 of
                   None \<Rightarrow> Falla
                 | Some s2 \<Rightarrow> Sigue (escribir [Endl] s2))))"

text \<open>
  The loop over the lines that arrive. When the lines run out before \<^verbatim>\<open>FIN\<close>, the
  program is blocked in \<^verbatim>\<open>leerLineaSerial\<close>: the result is \<open>Sigue\<close> with the state
  it waits in.
\<close>

fun bucle :: "Sesion \<Rightarrow> string list \<Rightarrow> Paso" where
  "bucle s [] = Sigue s"
| "bucle s (linea # resto) =
     (case paso s linea of
        Sigue s' \<Rightarrow> bucle s' resto
      | Sale s' \<Rightarrow> Sale s'
      | Falla \<Rightarrow> Falla)"

text \<open>
  The state in which \<^verbatim>\<open>main\<close> enters the loop (the output of the port dialogue is left
  out), and what it prints after the loop.
\<close>

definition Sesion_nueva :: Sesion where
  "Sesion_nueva =
     \<lparr>miListaDeCarga = ListaDeCarga_nueva, miRotorDeMapeo = RotorDeMapeo_nuevo, salida = []\<rparr>"

definition cierre :: "Sesion \<Rightarrow> Salida list option" where
  "cierre s =
     (case imprimirMensaje (miListaDeCarga s) of
        None \<Rightarrow> None
      | Some mensaje \<Rightarrow>
          Some (salida s @ [Texto ''  --- Mensaje Decodificado ---:'', Endl] @ mensaje
                @ [Endl, Texto ''Sistema apagado correctamente.'', Endl]))"

text \<open>
  \<^verbatim>\<open>main\<close> from its loop to its end, on the lines that arrive: it is still waiting for a
  line, or it has left the loop and printed the message, or it did not end normally.
\<close>

datatype Ejecucion = Esperando Sesion | Apagado "Salida list" | Abortado

definition main_bucle :: "string list \<Rightarrow> Ejecucion" where
  "main_bucle lineas =
     (case bucle Sesion_nueva lineas of
        Sigue s \<Rightarrow> Esperando s
      | Sale s \<Rightarrow> (case cierre s of None \<Rightarrow> Abortado | Some out \<Rightarrow> Apagado out)
      | Falla \<Rightarrow> Abortado)"

subsection \<open>Observations used in the statements\<close>

text \<open>
  The head position: the place in the fixed alphabet of the letter stored in the head node.
\<close>

definition posicion_cabeza :: "RotorDeMapeo \<Rightarrow> nat option" where
  "posicion_cabeza r =
     map_option (\<lambda>n. nat (valor_char (dato n) - valor_char (CHR ''A''))) (deref (nodos r) (cabeza r))"

text \<open>
  Reading \<open>k\<close> nodes of the rotor from a pointer along one of the two links: the letters
  met, and the pointer reached.
\<close>

fun vuelta :: "(NodoRotor \<Rightarrow> ptr) \<Rightarrow> NodoRotor list \<Rightarrow> ptr \<Rightarrow> nat \<Rightarrow> (string \<times> ptr) option" where
  "vuelta campo h p 0 = Some ([], p)"
| "vuelta campo h p (Suc k) =
     (case deref h p of
        None \<Rightarrow> None
      | Some n \<Rightarrow> map_option (\<lambda>(cs, q). (dato n # cs, q)) (vuelta campo h (campo n) k))"

text \<open>The operations on a rotor, and running a sequence of them.\<close>

datatype Operacion = Rotar int32 | Decodificar char

fun aplicar :: "RotorDeMapeo \<Rightarrow> Operacion \<Rightarrow> RotorDeMapeo option" where
  "aplicar r (Rotar N) = rotar r N"
| "aplicar r (Decodificar c) = map_option (\<lambda>d. r) (getMapeo r c)"

fun aplicar_todas :: "RotorDeMapeo \<Rightarrow> Operacion list \<Rightarrow> RotorDeMapeo option" where
  "aplicar_todas r [] = Some r"
| "aplicar_todas r (x # xs) =
     (case aplicar r x of None \<Rightarrow> None | Some r' \<Rightarrow> aplicar_todas r' xs)"

text \<open>Appending a sequence of characters to a payload list, in order.\<close>

fun insertar_todos :: "ListaDeCarga \<Rightarrow> string \<Rightarrow> ListaDeCarga option" where
  "insertar_todos l [] = Some l"
| "insertar_todos l (c # cs) =
     (case insertarAlFinal l c of None \<Rightarrow> None | Some l' \<Rightarrow> insertar_todos l' cs)"

text \<open>The characters of an output, without the other items.\<close>

fun caracteres :: "Salida list \<Rightarrow> string" where
  "caracteres [] = []"
| "caracteres (Car c # out) = c # caracteres out"
| "caracteres (x # out) = caracteres out"

subsection \<open>Auxiliary notions for the proofs\<close>

text \<open>The most negative \<^verbatim>\<open>int\<close>.\<close>

definition INT_MIN :: int32 where
  "INT_MIN = - (2 ^ 31)"

text \<open>
  The node that the constructor leaves at address \<open>i\<close>, and the rotor states met in the
  proofs: the store of the fresh rotor, and a head that points into it.
\<close>

definition nodo_en :: "nat \<Rightarrow> NodoRotor" where
  "nodo_en i = \<lparr>dato = alfabeto ! i, siguiente = Some (Suc i mod 26), previo = Some ((i + 25) mod 26)\<rparr>"

definition rotor_bien :: "RotorDeMapeo \<Rightarrow> bool" where
  "rotor_bien r \<longleftrightarrow>
     nodos r = nodos RotorDeMapeo_nuevo \<and> (case cabeza r of None \<Rightarrow> False | Some a \<Rightarrow> a < 26)"

text \<open>
  The number that a run of decimal digits writes, as an unbounded integer.
\<close>

definition valor_decimal :: "string \<Rightarrow> int" where
  "valor_decimal ds = foldl (\<lambda>v c. v * 10 + (valor_char c - valor_char (CHR ''0''))) 0 ds"

text \<open>
  The payload lists met in the proofs: the list that holds the characters \<open>cs\<close>, node
  \<open>i\<close> at address \<open>i\<close> and linked to node \<open>i + 1\<close>.
\<close>

definition lista_bien :: "ListaDeCarga \<Rightarrow> string \<Rightarrow> bool" where
  "lista_bien l cs \<longleftrightarrow>
     length (celdas l) = length cs \<and>
     (\<forall>i<length cs. dato_c (celdas l ! i) = cs ! i \<and>
        siguiente_c (celdas l ! i) = (if Suc i < length cs then Some (Suc i) else None)) \<and>
     cabeza_c l = (if cs = [] then None else Some 0) \<and>
     cola_c l = (if cs = [] then None else Some (length cs - 1))"

section \<open>Properties\<close>

declare recorrer.simps [simp del]
declare leer_digitos.simps [simp del]

subsection \<open>Signed 32-bit arithmetic\<close>

lemma sint_suc: "i <s (N::int32) \<Longrightarrow> sint (i + 1) = sint i + 1"
proof -
  assume "i <s N"
  then have "sint i < sint N" by (simp add: word_sless_alt)
  moreover have "sint N < 2 ^ 31" using sint_lt [of N] by simp
  moreover have "- (2 ^ 31) \<le> sint i" using sint_ge [of i] by simp
  ultimately have "signed_take_bit 31 (sint i + 1) = sint i + 1"
    by (intro signed_take_bit_int_eq_self) auto
  then show ?thesis by (simp add: sint_word_ariths)
qed

lemma sint_menos: "(N::int32) \<noteq> INT_MIN \<Longrightarrow> sint (- N) = - sint N"
proof -
  assume n: "N \<noteq> INT_MIN"
  have "sint N \<noteq> - (2 ^ 31)"
  proof
    assume "sint N = - (2 ^ 31)"
    then have "word_of_int (sint N) = (word_of_int (- (2 ^ 31)) :: int32)" by simp
    then have "N = INT_MIN" by (simp add: INT_MIN_def)
    with n show False by simp
  qed
  moreover have "sint N < 2 ^ 31" "- (2 ^ 31) \<le> sint N"
    using sint_lt [of N] sint_ge [of N] by simp_all
  ultimately have "signed_take_bit 31 (- sint N) = - sint N"
    by (intro signed_take_bit_int_eq_self) auto
  then show ?thesis by (simp add: sint_word_ariths)
qed

subsection \<open>Characters: signed and unsigned reading\<close>

text \<open>
  The two range tests of the program, on letters and on digits, hold for the same
  characters whether \<^verbatim>\<open>char\<close> is signed or unsigned.
\<close>

lemma of_char_cota: "(of_char c :: nat) < 256"
proof -
  have "(of_char c :: nat) mod 256 = of_char c" by simp
  then show ?thesis by (metis mod_less_divisor zero_less_numeral)
qed

lemma valor_char_nat:
  "valor_char c = (if (of_char c :: nat) < 128 then int (of_char c) else int (of_char c) - 256)"
proof -
  define n where "n = (of_char c :: nat)"
  have n: "n < 256" unfolding n_def by (rule of_char_cota)
  have w: "(of_char c :: 8 word) = of_nat n" unfolding n_def by (simp add: of_nat_of_char)
  have "sint (of_nat n :: 8 word) = signed_take_bit 7 (int n)"
    by (simp add: signed_of_nat)
  also have "\<dots> = take_bit 8 (int n + 128) - 128"
    by (simp add: signed_take_bit_eq_take_bit_shift)
  also have "\<dots> = (int n + 128) mod 256 - 128" by (simp add: take_bit_eq_mod)
  also have "\<dots> = (if n < 128 then int n else int n - 256)"
  proof (cases "n < 128")
    case True
    then show ?thesis by simp
  next
    case False
    then have "(int n + 128) mod 256 = int n + 128 - 256"
      using n by (simp add: mod_pos_geq)
    with False show ?thesis by simp
  qed
  finally show ?thesis by (simp add: valor_char_def w n_def)
qed

lemma rango_sin_signo:
  "valor_char c < valor_char (CHR ''A'') \<or> valor_char (CHR ''Z'') < valor_char c \<longleftrightarrow>
   (of_char c :: nat) < of_char (CHR ''A'') \<or> (of_char (CHR ''Z'') :: nat) < of_char c"
proof -
  have A: "valor_char (CHR ''A'') = 65" "valor_char (CHR ''Z'') = 90"
    by (simp_all add: valor_char_def)
  define n where "n = (of_char c :: nat)"
  have n: "n < 256" unfolding n_def by (rule of_char_cota)
  have v: "valor_char c = (if n < 128 then int n else int n - 256)"
    unfolding n_def by (rule valor_char_nat)
  have B: "(of_char (CHR ''A'') :: nat) = 65" "(of_char (CHR ''Z'') :: nat) = 90" by simp_all
  show ?thesis unfolding A B v n_def [symmetric] using n by auto
qed

lemma digito_sin_signo:
  "es_digito c \<longleftrightarrow> (of_char (CHR ''0'') :: nat) \<le> of_char c \<and> (of_char c :: nat) \<le> of_char (CHR ''9'')"
proof -
  have A: "valor_char (CHR ''0'') = 48" "valor_char (CHR ''9'') = 57"
    by (simp_all add: valor_char_def)
  define n where "n = (of_char c :: nat)"
  have n: "n < 256" unfolding n_def by (rule of_char_cota)
  have v: "valor_char c = (if n < 128 then int n else int n - 256)"
    unfolding n_def by (rule valor_char_nat)
  have B: "(of_char (CHR ''0'') :: nat) = 48" "(of_char (CHR ''9'') :: nat) = 57" by simp_all
  show ?thesis unfolding es_digito_def A B v n_def [symmetric] using n by auto
qed

subsection \<open>The store built by the constructor\<close>

lemma nodos_nuevo: "nodos RotorDeMapeo_nuevo = map nodo_en [0..<26]"
  by code_simp

lemma cabeza_nuevo: "cabeza RotorDeMapeo_nuevo = Some 0"
  by code_simp

lemma deref_nuevo: "a < 26 \<Longrightarrow> deref (nodos RotorDeMapeo_nuevo) (Some a) = Some (nodo_en a)"
  by (simp add: nodos_nuevo deref_def)

lemma rotor_bien_nuevo: "rotor_bien RotorDeMapeo_nuevo"
  by (simp add: rotor_bien_def cabeza_nuevo)

subsection \<open>The counting loops\<close>

lemma recorrer_fin: "\<not> i <s N \<Longrightarrow> recorrer campo h p i N = Some p"
  by (simp add: recorrer.simps)

lemma recorrer_siguiente:
  "a < 26 \<Longrightarrow> sint i \<le> sint N \<Longrightarrow>
   recorrer siguiente (nodos RotorDeMapeo_nuevo) (Some a) i N =
     Some (Some ((a + nat (sint N - sint i)) mod 26))"
proof (induction "nat (sint N - sint i)" arbitrary: a i)
  case 0
  then have "\<not> i <s N" by (simp add: word_sless_alt)
  with 0 show ?case by (simp add: recorrer_fin)
next
  case (Suc k)
  then have lt: "i <s N" by (simp add: word_sless_alt)
  then have s: "sint (i + 1) = sint i + 1" by (rule sint_suc)
  have k: "k = nat (sint N - sint (i + 1))" using Suc.hyps(2) s by simp
  have le: "sint (i + 1) \<le> sint N" using lt s by (simp add: word_sless_alt)
  have a': "Suc a mod 26 < 26" by simp
  have "recorrer siguiente (nodos RotorDeMapeo_nuevo) (Some a) i N
      = recorrer siguiente (nodos RotorDeMapeo_nuevo) (Some (Suc a mod 26)) (i + 1) N"
    using lt Suc.prems(1) by (subst recorrer.simps) (simp add: deref_nuevo nodo_en_def)
  also have "\<dots> = Some (Some ((Suc a mod 26 + nat (sint N - sint (i + 1))) mod 26))"
    by (rule Suc.hyps(1) [OF k a' le])
  also have "(Suc a mod 26 + nat (sint N - sint (i + 1))) mod 26 = (a + nat (sint N - sint i)) mod 26"
    using Suc.hyps(2) s k by (metis add_Suc add_Suc_right mod_add_left_eq)
  finally show ?case .
qed

lemma recorrer_previo:
  "a < 26 \<Longrightarrow> sint i \<le> sint N \<Longrightarrow>
   recorrer previo (nodos RotorDeMapeo_nuevo) (Some a) i N =
     Some (Some (nat ((int a - (sint N - sint i)) mod 26)))"
proof (induction "nat (sint N - sint i)" arbitrary: a i)
  case 0
  then have "\<not> i <s N" by (simp add: word_sless_alt)
  with 0 show ?case by (simp add: recorrer_fin)
next
  case (Suc k)
  then have lt: "i <s N" by (simp add: word_sless_alt)
  then have s: "sint (i + 1) = sint i + 1" by (rule sint_suc)
  have k: "k = nat (sint N - sint (i + 1))" using Suc.hyps(2) s by simp
  have le: "sint (i + 1) \<le> sint N" using lt s by (simp add: word_sless_alt)
  have a': "(a + 25) mod 26 < 26" by simp
  have "recorrer previo (nodos RotorDeMapeo_nuevo) (Some a) i N
      = recorrer previo (nodos RotorDeMapeo_nuevo) (Some ((a + 25) mod 26)) (i + 1) N"
    using lt Suc.prems(1) by (subst recorrer.simps) (simp add: deref_nuevo nodo_en_def)
  also have "\<dots> = Some (Some (nat ((int ((a + 25) mod 26) - (sint N - sint (i + 1))) mod 26)))"
    by (rule Suc.hyps(1) [OF k a' le])
  also have "(int ((a + 25) mod 26) - (sint N - sint (i + 1))) mod 26 = (int a - (sint N - sint i)) mod 26"
  proof -
    have "int ((a + 25) mod 26) = (int a + 25) mod 26" by (simp add: zmod_int)
    then have "(int ((a + 25) mod 26) - (sint N - sint (i + 1))) mod 26
        = ((int a + 25) - (sint N - sint (i + 1))) mod 26"
      by (simp add: mod_diff_left_eq)
    also have "\<dots> = (int a - (sint N - sint i) + 26) mod 26" using s by (simp add: algebra_simps)
    also have "\<dots> = (int a - (sint N - sint i)) mod 26" by simp
    finally show ?thesis .
  qed
  finally show ?case .
qed

subsection \<open>Rotation\<close>

lemma rotar_INT_MIN: "rotar r INT_MIN = Some r"
proof -
  have c: "\<not> 0 <s INT_MIN" "INT_MIN \<noteq> 0" "\<not> 0 <s - INT_MIN"
    by (simp_all add: INT_MIN_def word_sless_alt)
  have "rotar r INT_MIN
      = map_option (\<lambda>p. r\<lparr>cabeza := p\<rparr>) (recorrer previo (nodos r) (cabeza r) 0 (- INT_MIN))"
    using c(1,2) by (simp add: rotar_def)
  also have "recorrer previo (nodos r) (cabeza r) 0 (- INT_MIN) = Some (cabeza r)"
    using c(3) by (rule recorrer_fin)
  finally show ?thesis by simp
qed

lemma rotar_bien:
  assumes "rotor_bien r" and "cabeza r = Some a" and "N \<noteq> INT_MIN"
  shows "rotar r N = Some (r\<lparr>cabeza := Some (nat ((int a + sint N) mod 26))\<rparr>)"
proof -
  from assms have a: "a < 26" and h: "nodos r = nodos RotorDeMapeo_nuevo"
    by (auto simp: rotor_bien_def)
  consider "N = 0" | "0 <s N" | "N \<noteq> 0" "\<not> 0 <s N" by blast
  then show ?thesis
  proof cases
    case 1
    have "r\<lparr>cabeza := Some a\<rparr> = r" using assms(2) by simp
    with 1 a show ?thesis by (simp add: rotar_def)
  next
    case 2
    then have pos: "0 < sint N" by (simp add: word_sless_alt)
    then have "recorrer siguiente (nodos r) (cabeza r) 0 N = Some (Some ((a + nat (sint N)) mod 26))"
      using recorrer_siguiente [of a 0 N] a h assms(2) by simp
    moreover have "nat ((int a + sint N) mod 26) = (a + nat (sint N)) mod 26"
      using pos by (simp add: nat_mod_distrib nat_add_distrib)
    moreover have "N \<noteq> 0" using pos by auto
    ultimately show ?thesis using 2 by (simp add: rotar_def)
  next
    case 3
    then have "sint N \<le> 0" by (simp add: word_sless_alt)
    moreover have "sint N \<noteq> 0"
    proof
      assume "sint N = 0"
      then have "word_of_int (sint N) = (word_of_int 0 :: int32)" by simp
      with 3(1) show False by simp
    qed
    ultimately have neg: "sint N < 0" by simp
    have m: "sint (- N) = - sint N" using assms(3) by (rule sint_menos)
    then have "recorrer previo (nodos r) (cabeza r) 0 (- N) = Some (Some (nat ((int a - sint (- N)) mod 26)))"
      using recorrer_previo [of a 0 "- N"] a h assms(2) neg by simp
    then show ?thesis using 3 m by (simp add: rotar_def)
  qed
qed

subsection \<open>Decoding\<close>

lemma posiciones: "\<forall>a\<in>set [0..<26]. nat (valor_char (alfabeto ! a) - valor_char (CHR ''A'')) = a"
  by code_simp

lemma posicion_letra: "a < 26 \<Longrightarrow> nat (valor_char (alfabeto ! a) - valor_char (CHR ''A'')) = a"
  using posiciones by simp

lemma posicion_cabeza_bien: "rotor_bien r \<Longrightarrow> cabeza r = Some a \<Longrightarrow> posicion_cabeza r = Some a"
  by (auto simp: rotor_bien_def posicion_cabeza_def deref_nuevo nodo_en_def posicion_letra)

lemma getMapeo_espacio: "getMapeo r (CHR '' '') = Some (CHR '' '')"
  by (simp add: getMapeo_def)

lemma getMapeo_fuera:
  "valor_char c < valor_char (CHR ''A'') \<or> valor_char (CHR ''Z'') < valor_char c \<Longrightarrow> getMapeo r c = Some c"
  by (auto simp: getMapeo_def)

lemma getMapeo_letra:
  assumes "rotor_bien r" and "cabeza r = Some a"
    and "valor_char (CHR ''A'') \<le> valor_char c" and "valor_char c \<le> valor_char (CHR ''Z'')"
  shows "getMapeo r c = Some (alfabeto ! ((a + nat (valor_char c - valor_char (CHR ''A''))) mod 26))"
proof -
  from assms have a: "a < 26" and h: "nodos r = nodos RotorDeMapeo_nuevo"
    by (auto simp: rotor_bien_def)
  define p where "p = valor_char c - valor_char (CHR ''A'')"
  have A: "valor_char (CHR ''A'') = 65" "valor_char (CHR ''Z'') = 90" "valor_char (CHR '' '') = 32"
    by (simp_all add: valor_char_def)
  have p: "0 \<le> p" "p \<le> 25" using assms(3,4) by (simp_all add: p_def A)
  have ne: "c \<noteq> CHR '' ''" using assms(3) A by auto
  have sp: "sint (word_of_int p :: int32) = p"
    using p by (simp add: signed_of_int signed_take_bit_int_eq_self)
  have "recorrer siguiente (nodos r) (cabeza r) 0 (word_of_int p) = Some (Some ((a + nat p) mod 26))"
    using recorrer_siguiente [of a 0 "word_of_int p"] a h assms(2) p sp by simp
  moreover have "(a + nat p) mod 26 < 26" by simp
  ultimately show ?thesis
    using ne assms(3,4) h unfolding getMapeo_def p_def [symmetric]
    by (simp add: Let_def deref_nuevo nodo_en_def not_less flip: p_def)
qed

subsection \<open>Reachable rotor states\<close>

lemma rotar_conserva:
  assumes "rotor_bien r"
  shows "\<exists>r'. rotar r N = Some r' \<and> rotor_bien r'"
proof (cases "N = INT_MIN")
  case True
  with assms show ?thesis by (simp add: rotar_INT_MIN)
next
  case False
  from assms obtain a where a: "cabeza r = Some a"
    by (auto simp: rotor_bien_def split: option.splits)
  have "nat ((int a + sint N) mod 26) < 26" by simp
  with assms show ?thesis
    unfolding rotar_bien [OF assms a False] by (simp add: rotor_bien_def)
qed

lemma getMapeo_definido:
  assumes "rotor_bien r"
  shows "\<exists>d. getMapeo r c = Some d"
proof -
  from assms obtain a where a: "cabeza r = Some a"
    by (auto simp: rotor_bien_def split: option.splits)
  show ?thesis
  proof (cases "valor_char c < valor_char (CHR ''A'') \<or> valor_char (CHR ''Z'') < valor_char c")
    case True
    then show ?thesis by (simp add: getMapeo_fuera)
  next
    case False
    then show ?thesis using getMapeo_letra [OF assms a, of c] by simp
  qed
qed

lemma aplicar_conserva:
  assumes "rotor_bien r"
  shows "\<exists>r'. aplicar r x = Some r' \<and> rotor_bien r'"
proof (cases x)
  case (Rotar N)
  with rotar_conserva [OF assms, of N] show ?thesis by simp
next
  case (Decodificar c)
  with getMapeo_definido [OF assms, of c] assms show ?thesis by auto
qed

lemma aplicar_todas_conserva:
  "rotor_bien r \<Longrightarrow> \<exists>r'. aplicar_todas r xs = Some r' \<and> rotor_bien r'"
proof (induction xs arbitrary: r)
  case Nil
  then show ?case by simp
next
  case (Cons x xs)
  from aplicar_conserva [OF Cons.prems, of x]
  obtain r1 where r1: "aplicar r x = Some r1" "rotor_bien r1" by blast
  from Cons.IH [OF r1(2)] r1(1) show ?case by simp
qed

lemma alcanzable_bien: "aplicar_todas RotorDeMapeo_nuevo ops = Some r \<Longrightarrow> rotor_bien r"
  using aplicar_todas_conserva [OF rotor_bien_nuevo, of ops] by auto

lemma vueltas:
  "\<forall>a\<in>set [0..<26].
     vuelta siguiente (nodos RotorDeMapeo_nuevo) (Some a) 26 = Some (rotate a alfabeto, Some a) \<and>
     vuelta previo (nodos RotorDeMapeo_nuevo) (Some a) 26 = Some (rev (rotate (Suc a) alfabeto), Some a)"
  by code_simp

lemma alfabeto_letras: "length alfabeto = 26 \<and> distinct alfabeto"
  by code_simp

subsection \<open>The claims about the rotor\<close>

text \<open>
  Claim C1. Decoding a space returns the space and decoding a character outside
  \<open>A\<close>--\<open>Z\<close> returns it unchanged, in every rotor state whatever. In every state
  reached from the fresh rotor by rotations and decodings, decoding a letter at offset
  \<open>p\<close> from \<open>A\<close> returns the letter at place \<open>(head position + p) mod 26\<close> of the
  fixed alphabet.
\<close>

theorem getMapeo_correcto:
  "getMapeo r (CHR '' '') = Some (CHR '' '') \<and>
   (valor_char c < valor_char (CHR ''A'') \<or> valor_char (CHR ''Z'') < valor_char c
      \<longrightarrow> getMapeo r c = Some c) \<and>
   (aplicar_todas RotorDeMapeo_nuevo ops = Some r' \<and>
    valor_char (CHR ''A'') \<le> valor_char c' \<and> valor_char c' \<le> valor_char (CHR ''Z'')
      \<longrightarrow> (\<exists>hp. posicion_cabeza r' = Some hp \<and>
             getMapeo r' c' =
               Some (alfabeto ! ((hp + nat (valor_char c' - valor_char (CHR ''A''))) mod 26))))"
proof (intro conjI impI)
  show "getMapeo r (CHR '' '') = Some (CHR '' '')" by (rule getMapeo_espacio)
next
  assume "valor_char c < valor_char (CHR ''A'') \<or> valor_char (CHR ''Z'') < valor_char c"
  then show "getMapeo r c = Some c" by (rule getMapeo_fuera)
next
  assume h: "aplicar_todas RotorDeMapeo_nuevo ops = Some r' \<and>
    valor_char (CHR ''A'') \<le> valor_char c' \<and> valor_char c' \<le> valor_char (CHR ''Z'')"
  then have b: "rotor_bien r'" using alcanzable_bien by blast
  then obtain a where a: "cabeza r' = Some a"
    by (auto simp: rotor_bien_def split: option.splits)
  from posicion_cabeza_bien [OF b a] getMapeo_letra [OF b a, of c'] h
  show "\<exists>hp. posicion_cabeza r' = Some hp \<and>
             getMapeo r' c' =
               Some (alfabeto ! ((hp + nat (valor_char c' - valor_char (CHR ''A''))) mod 26))"
    by simp
qed

text \<open>
  The theorem at work: a lower-case letter passes through, and after rotating by 3 and
  then by \<open>-30\<close> the head is at place 25, where \<open>C\<close> decodes to \<open>B\<close>.
\<close>

theorem getMapeo_correcto_witness:
  "(valor_char (CHR ''a'') < valor_char (CHR ''A'') \<or> valor_char (CHR ''Z'') < valor_char (CHR ''a'')) \<and>
   getMapeo RotorDeMapeo_nuevo (CHR ''a'') = Some (CHR ''a'') \<and>
   aplicar_todas RotorDeMapeo_nuevo [Rotar 3, Decodificar (CHR ''Q''), Rotar (- 30)]
     = Some (RotorDeMapeo_nuevo\<lparr>cabeza := Some 25\<rparr>) \<and>
   valor_char (CHR ''A'') \<le> valor_char (CHR ''C'') \<and> valor_char (CHR ''C'') \<le> valor_char (CHR ''Z'') \<and>
   posicion_cabeza (RotorDeMapeo_nuevo\<lparr>cabeza := Some 25\<rparr>) = Some 25 \<and>
   getMapeo (RotorDeMapeo_nuevo\<lparr>cabeza := Some 25\<rparr>) (CHR ''C'') = Some (alfabeto ! ((25 + 2) mod 26)) \<and>
   alfabeto ! ((25 + 2) mod 26) = CHR ''B''"
proof -
  have h1: "valor_char (CHR ''a'') < valor_char (CHR ''A'') \<or> valor_char (CHR ''Z'') < valor_char (CHR ''a'')"
    by (simp add: valor_char_def)
  have h2: "aplicar_todas RotorDeMapeo_nuevo [Rotar 3, Decodificar (CHR ''Q''), Rotar (- 30)]
     = Some (RotorDeMapeo_nuevo\<lparr>cabeza := Some 25\<rparr>)"
    by code_simp
  have h3: "valor_char (CHR ''A'') \<le> valor_char (CHR ''C'') \<and> valor_char (CHR ''C'') \<le> valor_char (CHR ''Z'')"
    by (simp add: valor_char_def)
  have p: "posicion_cabeza (RotorDeMapeo_nuevo\<lparr>cabeza := Some 25\<rparr>) = Some 25"
    by code_simp
  have v: "nat (valor_char (CHR ''C'') - valor_char (CHR ''A'')) = 2"
    by (simp add: valor_char_def)
  have l: "alfabeto ! ((25 + 2) mod 26) = CHR ''B''"
    by (simp add: alfabeto_def)
  from getMapeo_correcto [of RotorDeMapeo_nuevo "CHR ''a''"
      "[Rotar 3, Decodificar (CHR ''Q''), Rotar (- 30)]" "RotorDeMapeo_nuevo\<lparr>cabeza := Some 25\<rparr>" "CHR ''C''"]
  show ?thesis using h1 h2 h3 p v l by simp
qed

lemma rotar_mueve_cabeza:
  assumes "rotor_bien r" and "N \<noteq> INT_MIN"
  shows "\<exists>r' hp hp'. rotar r N = Some r' \<and> nodos r' = nodos r \<and>
           posicion_cabeza r = Some hp \<and> posicion_cabeza r' = Some hp' \<and>
           int hp' = (int hp + sint N) mod 26"
proof -
  from assms(1) obtain a where a: "cabeza r = Some a"
    by (auto simp: rotor_bien_def split: option.splits)
  let ?a' = "nat ((int a + sint N) mod 26)"
  let ?r' = "r\<lparr>cabeza := Some ?a'\<rparr>"
  have r': "rotar r N = Some ?r'" by (rule rotar_bien [OF assms(1) a assms(2)])
  have "?a' < 26" by simp
  with assms(1) have b': "rotor_bien ?r'" by (simp add: rotor_bien_def)
  have "posicion_cabeza ?r' = Some ?a'" by (rule posicion_cabeza_bien [OF b']) simp
  moreover have "posicion_cabeza r = Some a" by (rule posicion_cabeza_bien [OF assms(1) a])
  moreover have "int ?a' = (int a + sint N) mod 26" by simp
  ultimately show ?thesis using r' by simp
qed

lemma rotaciones_netas:
  "rotor_bien r \<Longrightarrow> cabeza r = Some a \<Longrightarrow> INT_MIN \<notin> set Ns \<Longrightarrow>
   aplicar_todas r (map Rotar Ns) = Some (r\<lparr>cabeza := Some (nat ((int a + sum_list (map sint Ns)) mod 26))\<rparr>)"
proof (induction Ns arbitrary: r a)
  case Nil
  then have "a < 26" by (auto simp: rotor_bien_def)
  with Nil show ?case by simp
next
  case (Cons N Ns)
  let ?a' = "nat ((int a + sint N) mod 26)"
  let ?r' = "r\<lparr>cabeza := Some ?a'\<rparr>"
  from Cons.prems have n: "N \<noteq> INT_MIN" and ns: "INT_MIN \<notin> set Ns" by auto
  have r': "rotar r N = Some ?r'" by (rule rotar_bien [OF Cons.prems(1,2) n])
  have "?a' < 26" by simp
  with Cons.prems(1) have b': "rotor_bien ?r'" by (simp add: rotor_bien_def)
  have c': "cabeza ?r' = Some ?a'" by simp
  have "(int ?a' + sum_list (map sint Ns)) mod 26 = (int a + (sint N + sum_list (map sint Ns))) mod 26"
    by (simp add: mod_add_left_eq add.assoc)
  with Cons.IH [OF b' c' ns] r' show ?case by simp
qed

lemma rotaciones_netas_cero:
  assumes "rotor_bien r" and "INT_MIN \<notin> set Ns" and "sum_list (map sint Ns) mod 26 = 0"
  shows "aplicar_todas r (map Rotar Ns) = Some r"
proof -
  from assms(1) obtain a where a: "cabeza r = Some a" "a < 26"
    by (auto simp: rotor_bien_def split: option.splits)
  have "(int a + sum_list (map sint Ns)) mod 26 = (int a mod 26 + sum_list (map sint Ns) mod 26) mod 26"
    by (simp add: mod_add_eq)
  also have "\<dots> = int a" using assms(3) a(2) by simp
  finally have "r\<lparr>cabeza := Some (nat ((int a + sum_list (map sint Ns)) mod 26))\<rparr> = r"
    using a(1) by simp
  with rotaciones_netas [OF assms(1) a(1) assms(2)] show ?thesis by simp
qed

lemma ciclo_bien:
  assumes "rotor_bien r"
  shows "nodos r = nodos RotorDeMapeo_nuevo \<and>
         (\<exists>k cs. k < 26 \<and> posicion_cabeza r = Some k \<and> cs = rotate k alfabeto \<and>
            vuelta siguiente (nodos r) (cabeza r) 26 = Some (cs, cabeza r) \<and>
            vuelta previo (nodos r) (cabeza r) 26 = Some (rev (rotate 1 cs), cabeza r) \<and>
            length cs = 26 \<and> distinct cs \<and> set cs = set alfabeto)"
proof -
  from assms obtain a where a: "cabeza r = Some a" "a < 26" and h: "nodos r = nodos RotorDeMapeo_nuevo"
    by (auto simp: rotor_bien_def split: option.splits)
  have p: "posicion_cabeza r = Some a" by (rule posicion_cabeza_bien [OF assms a(1)])
  from vueltas a(2)
  have v: "vuelta siguiente (nodos RotorDeMapeo_nuevo) (Some a) 26 = Some (rotate a alfabeto, Some a)"
    "vuelta previo (nodos RotorDeMapeo_nuevo) (Some a) 26 = Some (rev (rotate (Suc a) alfabeto), Some a)"
    by simp_all
  have "rotate 1 (rotate a alfabeto) = rotate (Suc a) alfabeto"
    by (simp add: rotate_rotate)
  with v a h p alfabeto_letras show ?thesis by simp
qed

text \<open>
  Claim C5. In every state reached from the fresh rotor by rotations and decodings, the
  store is the one the constructor built (only the head pointer differs), and the 26 nodes
  read from the head along \<^verbatim>\<open>siguiente\<close> give the alphabet rotated to the head position,
  ending back at the head: the 26 letters, each once, in their cyclic order. Read along
  \<^verbatim>\<open>previo\<close> the same cycle comes out backwards.
\<close>

theorem invariante_rotor:
  assumes "aplicar_todas RotorDeMapeo_nuevo ops = Some r"
  shows "nodos r = nodos RotorDeMapeo_nuevo \<and>
         (\<exists>k cs. k < 26 \<and> posicion_cabeza r = Some k \<and> cs = rotate k alfabeto \<and>
            vuelta siguiente (nodos r) (cabeza r) 26 = Some (cs, cabeza r) \<and>
            vuelta previo (nodos r) (cabeza r) 26 = Some (rev (rotate 1 cs), cabeza r) \<and>
            length cs = 26 \<and> distinct cs \<and> set cs = set alfabeto)"
  using ciclo_bien [OF alcanzable_bien [OF assms]] .

text \<open>The state after rotating by \<open>-1\<close>, decoding once and rotating by 29: head at \<open>C\<close>.\<close>

theorem invariante_rotor_witness:
  "aplicar_todas RotorDeMapeo_nuevo [Rotar (- 1), Decodificar (CHR ''K''), Rotar 29]
     = Some (RotorDeMapeo_nuevo\<lparr>cabeza := Some 2\<rparr>) \<and>
   nodos (RotorDeMapeo_nuevo\<lparr>cabeza := Some 2\<rparr>) = nodos RotorDeMapeo_nuevo \<and>
   vuelta siguiente (nodos RotorDeMapeo_nuevo) (Some 2) 26 = Some (''CDEFGHIJKLMNOPQRSTUVWXYZAB'', Some 2)"
proof -
  have h: "aplicar_todas RotorDeMapeo_nuevo [Rotar (- 1), Decodificar (CHR ''K''), Rotar 29]
     = Some (RotorDeMapeo_nuevo\<lparr>cabeza := Some 2\<rparr>)"
    by code_simp
  have v: "vuelta siguiente (nodos RotorDeMapeo_nuevo) (Some 2) 26 = Some (''CDEFGHIJKLMNOPQRSTUVWXYZAB'', Some 2)"
    by code_simp
  from invariante_rotor [OF h] h v show ?thesis by simp
qed

text \<open>
  Claim C2 says that \<^verbatim>\<open>rotar\<close> moves the head to \<open>(head position + amount) mod 26\<close>
  for every amount, the most negative \<^verbatim>\<open>int\<close> included. For every other amount this is
  \<open>rotar_mueve_cabeza\<close>. For the most negative \<^verbatim>\<open>int\<close>, which the parser produces from
  the line \<^verbatim>\<open>M,2147483648\<close>, the negation in the backward branch wraps, the loop runs no
  round and the head stays at place 0, where the claim asks for place 2.
\<close>

theorem rotar_INT_MIN_no_gira:
  "parsearLinea ''M,2147483648'' = Some (TramaMap INT_MIN) \<and>
   rotar RotorDeMapeo_nuevo INT_MIN = Some RotorDeMapeo_nuevo \<and>
   posicion_cabeza RotorDeMapeo_nuevo = Some 0 \<and>
   (0 + sint INT_MIN) mod 26 = 2"
proof -
  have "parsearLinea ''M,2147483648'' = Some (TramaMap INT_MIN)" by code_simp
  moreover have "posicion_cabeza RotorDeMapeo_nuevo = Some 0" by code_simp
  moreover have "(0 + sint INT_MIN) mod 26 = 2" by (simp add: INT_MIN_def)
  ultimately show ?thesis by (simp add: rotar_INT_MIN)
qed

text \<open>
  Claim C6 says that rotations whose sum is a multiple of 26 leave every decoding
  unchanged. For amounts other than the most negative \<^verbatim>\<open>int\<close> this is
  \<open>rotaciones_netas_cero\<close>. The amounts \<open>- 2 ^ 31\<close> and \<open>24\<close> add up to a multiple of
  26, yet after them \<open>A\<close> decodes to \<open>Y\<close> and no longer to \<open>A\<close>: the first rotation
  does not move the head.
\<close>

theorem rotaciones_INT_MIN_no_invertibles:
  "(sint INT_MIN + sint (24 :: int32)) mod 26 = 0 \<and>
   getMapeo RotorDeMapeo_nuevo (CHR ''A'') = Some (CHR ''A'') \<and>
   aplicar_todas RotorDeMapeo_nuevo [Rotar INT_MIN, Rotar 24] = Some (RotorDeMapeo_nuevo\<lparr>cabeza := Some 24\<rparr>) \<and>
   getMapeo (RotorDeMapeo_nuevo\<lparr>cabeza := Some 24\<rparr>) (CHR ''A'') = Some (CHR ''Y'')"
proof -
  have "(sint INT_MIN + sint (24 :: int32)) mod 26 = 0" by (simp add: INT_MIN_def)
  moreover have "getMapeo RotorDeMapeo_nuevo (CHR ''A'') = Some (CHR ''A'')" by code_simp
  moreover have "aplicar_todas RotorDeMapeo_nuevo [Rotar INT_MIN, Rotar 24] = Some (RotorDeMapeo_nuevo\<lparr>cabeza := Some 24\<rparr>)"
    by code_simp
  moreover have "getMapeo (RotorDeMapeo_nuevo\<lparr>cabeza := Some 24\<rparr>) (CHR ''A'') = Some (CHR ''Y'')" by code_simp
  ultimately show ?thesis by simp
qed

subsection \<open>The parser on rotation frames\<close>

lemma es_digito_no_nulo: "es_digito c \<Longrightarrow> c \<noteq> CHR 0x00"
  by (auto simp: es_digito_def valor_char_def)

lemma es_digito_no_menos: "es_digito c \<Longrightarrow> c \<noteq> CHR ''-''"
  by (auto simp: es_digito_def valor_char_def)

lemma en_fin: "en linea (length linea) = CHR 0x00"
  by (simp add: en_def)

lemma en_append: "en (pre @ c # resto) (length pre) = c"
  by (simp add: en_def)

lemma leer_digitos_avanza: "indice \<le> fst (leer_digitos linea indice numero)"
proof (induction linea indice numero rule: leer_digitos.induct)
  case (1 linea indice numero)
  show ?case
  proof (cases "es_digito (en linea indice)")
    case True
    with 1 [OF True] show ?thesis by (subst leer_digitos.simps) simp
  next
    case False
    then show ?thesis by (subst leer_digitos.simps) simp
  qed
qed

lemma leer_digitos_quieto:
  "fst (leer_digitos linea indice numero) = indice \<longleftrightarrow> \<not> es_digito (en linea indice)"
proof (cases "es_digito (en linea indice)")
  case True
  let ?n = "numero * 10 + word_of_int (valor_char (en linea indice) - valor_char (CHR ''0''))"
  have "indice + 1 \<le> fst (leer_digitos linea (indice + 1) ?n)" by (rule leer_digitos_avanza)
  moreover have "leer_digitos linea indice numero = leer_digitos linea (indice + 1) ?n"
    using True by (subst leer_digitos.simps) simp
  ultimately show ?thesis using True by simp
next
  case False
  then show ?thesis by (subst leer_digitos.simps) simp
qed

lemma leer_digitos_tramo:
  "\<forall>c\<in>set ds. es_digito c \<Longrightarrow> \<not> es_digito (en (pre @ ds @ resto) (length pre + length ds)) \<Longrightarrow>
   leer_digitos (pre @ ds @ resto) (length pre) (word_of_int v) =
     (length pre + length ds,
      word_of_int (foldl (\<lambda>v c. v * 10 + (valor_char c - valor_char (CHR ''0''))) v ds))"
proof (induction ds arbitrary: pre v)
  case Nil
  then show ?case by (subst leer_digitos.simps) simp
next
  case (Cons d ds)
  let ?l = "pre @ (d # ds) @ resto"
  have l: "?l = (pre @ [d]) @ ds @ resto" by simp
  have d: "en ?l (length pre) = d" using en_append [of pre d "ds @ resto"] by simp
  have dig: "es_digito d" using Cons.prems(1) by simp
  have fin: "\<not> es_digito (en ((pre @ [d]) @ ds @ resto) (length (pre @ [d]) + length ds))"
    using Cons.prems(2) by simp
  have "leer_digitos ?l (length pre) (word_of_int v)
      = leer_digitos ?l (length pre + 1) (word_of_int v * 10 + word_of_int (valor_char d - valor_char (CHR ''0'')))"
    using dig d by (subst leer_digitos.simps) simp
  also have "word_of_int v * 10 + word_of_int (valor_char d - valor_char (CHR ''0''))
      = (word_of_int (v * 10 + (valor_char d - valor_char (CHR ''0''))) :: int32)"
    by simp
  also have "leer_digitos ?l (length pre + 1) (word_of_int (v * 10 + (valor_char d - valor_char (CHR ''0''))))
      = (length (pre @ [d]) + length ds,
         word_of_int (foldl (\<lambda>v c. v * 10 + (valor_char c - valor_char (CHR ''0'')))
            (v * 10 + (valor_char d - valor_char (CHR ''0''))) ds))"
    using Cons.IH [of "pre @ [d]" "v * 10 + (valor_char d - valor_char (CHR ''0''))"] Cons.prems(1) fin
    unfolding l by simp
  finally show ?case by simp
qed

lemma fin_tramo:
  "resto = [] \<or> \<not> es_digito (hd resto) \<Longrightarrow> \<not> es_digito (en (pre @ ds @ resto) (length pre + length ds))"
proof (cases resto)
  case Nil
  then show ?thesis using en_fin [of "pre @ ds"] by (simp add: es_digito_def valor_char_def)
next
  case (Cons c cs)
  assume "resto = [] \<or> \<not> es_digito (hd resto)"
  with Cons have "\<not> es_digito c" by simp
  moreover have "en (pre @ ds @ resto) (length pre + length ds) = c"
    using en_append [of "pre @ ds" c cs] Cons by simp
  ultimately show ?thesis by simp
qed

lemma parsearLinea_M:
  assumes "signo = [] \<or> signo = ''-''" and "ds \<noteq> []" and "\<forall>c\<in>set ds. es_digito c"
    and "resto = [] \<or> \<not> es_digito (hd resto)"
  shows "parsearLinea (''M,'' @ signo @ ds @ resto) =
           Some (TramaMap (word_of_int ((if signo = [] then 1 else - 1) * valor_decimal ds)))"
proof -
  from assms(2) obtain d ds' where ds: "ds = d # ds'" by (cases ds) auto
  with assms(3) have d: "es_digito d" by simp
  then have dn: "d \<noteq> CHR 0x00" "d \<noteq> CHR ''-''"
    by (simp_all add: es_digito_no_nulo es_digito_no_menos)
  from assms(1) show ?thesis
  proof
    assume s: "signo = []"
    let ?l = "''M,'' @ ds @ resto"
    have fin: "\<not> es_digito (en (''M,'' @ ds @ resto) (length ''M,'' + length ds))"
      by (rule fin_tramo [OF assms(4)])
    have r: "leer_digitos ?l 2 0 = (2 + length ds, word_of_int (valor_decimal ds))"
      using leer_digitos_tramo [OF assms(3) fin, of 0]
      by (simp add: valor_decimal_def numeral_2_eq_2 numeral_3_eq_3)
    have "longitud_c ?l \<ge> 3" using dn ds by simp
    moreover have "en ?l 0 = CHR ''M''" "en ?l 1 = CHR '',''" "en ?l 2 = d"
      using ds by (simp_all add: en_def)
    ultimately show ?thesis using s r dn assms(2)
      by (simp add: parsearLinea_def Let_def)
  next
    assume s: "signo = ''-''"
    let ?l = "''M,-'' @ ds @ resto"
    have fin: "\<not> es_digito (en (''M,-'' @ ds @ resto) (length ''M,-'' + length ds))"
      by (rule fin_tramo [OF assms(4)])
    have r: "leer_digitos ?l 3 0 = (3 + length ds, word_of_int (valor_decimal ds))"
      using leer_digitos_tramo [OF assms(3) fin, of 0]
      by (simp add: valor_decimal_def numeral_2_eq_2 numeral_3_eq_3)
    have "longitud_c ?l \<ge> 3" by simp
    moreover have "en ?l 0 = CHR ''M''" "en ?l 1 = CHR '',''" "en ?l 2 = CHR ''-''"
      by (simp_all add: en_def)
    ultimately show ?thesis using s r assms(2)
      by (simp add: parsearLinea_def Let_def)
  qed
qed

lemma sint_cabe: "- (2 ^ 31) \<le> v \<Longrightarrow> v < 2 ^ 31 \<Longrightarrow> sint (word_of_int v :: int32) = v"
  by (simp add: signed_of_int signed_take_bit_int_eq_self)

subsection \<open>The claims about the parser\<close>

text \<open>
  Claim C4. The lines \<^verbatim>\<open>L,A\<close>, \<^verbatim>\<open>M,5\<close> and \<^verbatim>\<open>M,-3\<close> parse to a load frame with
  \<open>A\<close> and to rotation frames with 5 and \<open>-3\<close>; the lines \<^verbatim>\<open>M,\<close>, \<^verbatim>\<open>M,-\<close>,
  \<^verbatim>\<open>X,5\<close> and \<^verbatim>\<open>AB\<close> are rejected and give no frame.
\<close>

theorem parsearLinea_ejemplos:
  "parsearLinea ''L,A'' = Some (TramaLoad (CHR ''A'')) \<and>
   parsearLinea ''M,5'' = Some (TramaMap 5) \<and>
   parsearLinea ''M,-3'' = Some (TramaMap (- 3)) \<and>
   sint (5 :: int32) = 5 \<and> sint (- 3 :: int32) = - 3 \<and>
   parsearLinea ''M,'' = None \<and>
   parsearLinea ''M,-'' = None \<and>
   parsearLinea ''X,5'' = None \<and>
   parsearLinea ''AB'' = None"
  by code_simp

text \<open>
  Claim C10 says that a rotation line with a suffix after its digits parses to the signed
  value of the digit run. As stated this fails when the run does not fit an \<^verbatim>\<open>int\<close>:
  the digits \<^verbatim>\<open>4294967297\<close> followed by \<^verbatim>\<open>x\<close> give the rotation 1.
\<close>

theorem parsearLinea_sufijo_desborda:
  "parsearLinea ''M,4294967297x'' = Some (TramaMap 1) \<and>
   sint (1 :: int32) = 1 \<and>
   valor_decimal ''4294967297'' = 4294967297"
  by code_simp

text \<open>
  Claim C10, amended. A line made of \<^verbatim>\<open>M,\<close>, an optional \<^verbatim>\<open>-\<close>, at least one
  digit and a non-empty suffix that starts with a non-digit parses to a rotation frame; the
  suffix is ignored, and the amount is the signed value of the digit run reduced modulo
  \<open>2 ^ 32\<close> to the range of \<^verbatim>\<open>int\<close>, which is the signed value itself whenever that
  fits the range.
\<close>

theorem parsearLinea_sufijo:
  assumes "signo = [] \<or> signo = ''-''" and "ds \<noteq> []" and "\<forall>c\<in>set ds. es_digito c"
    and "resto \<noteq> []" and "\<not> es_digito (hd resto)"
  shows "\<exists>n. parsearLinea (''M,'' @ signo @ ds @ resto) = Some (TramaMap n) \<and>
           n = word_of_int ((if signo = [] then 1 else - 1) * valor_decimal ds) \<and>
           (- (2 ^ 31) \<le> (if signo = [] then 1 else - 1) * valor_decimal ds \<and>
            (if signo = [] then 1 else - 1) * valor_decimal ds < 2 ^ 31
              \<longrightarrow> sint n = (if signo = [] then 1 else - 1) * valor_decimal ds)"
proof -
  let ?v = "(if signo = [] then 1 else - 1) * valor_decimal ds"
  have "parsearLinea (''M,'' @ signo @ ds @ resto) = Some (TramaMap (word_of_int ?v))"
    using assms by (intro parsearLinea_M) simp_all
  moreover have "- (2 ^ 31) \<le> ?v \<and> ?v < 2 ^ 31 \<longrightarrow> sint (word_of_int ?v :: int32) = ?v"
    using sint_cabe [of ?v] by blast
  ultimately show ?thesis by blast
qed

text \<open>The line \<^verbatim>\<open>M,-5abc\<close> parses to the rotation \<open>-5\<close>.\<close>

theorem parsearLinea_sufijo_witness:
  "es_digito (CHR ''5'') \<and> es_digito (CHR ''a'') = False \<and>
   parsearLinea ''M,-5abc'' = Some (TramaMap (- 5)) \<and> sint (- 5 :: int32) = - 5"
proof -
  have h1: "''-'' = [] \<or> ''-'' = ''-''" by simp
  have h2: "''5'' \<noteq> []" by simp
  have h3: "\<forall>c\<in>set ''5''. es_digito c" by (simp add: es_digito_def valor_char_def)
  have h4: "''abc'' \<noteq> []" by simp
  have h5: "\<not> es_digito (hd ''abc'')" by (simp add: es_digito_def valor_char_def)
  have v: "valor_decimal ''5'' = 5" by (simp add: valor_decimal_def valor_char_def)
  from parsearLinea_sufijo [OF h1 h2 h3 h4 h5] h3 h5 v
  show ?thesis by simp
qed

subsection \<open>The payload list\<close>

lemma lista_bien_nueva: "lista_bien ListaDeCarga_nueva []"
  by (simp add: lista_bien_def ListaDeCarga_nueva_def)

lemma insertar_bien:
  assumes "lista_bien l cs"
  shows "\<exists>l'. insertarAlFinal l c = Some l' \<and> lista_bien l' (cs @ [c])"
proof (cases "cs = []")
  case True
  with assms show ?thesis
    by (simp add: lista_bien_def insertarAlFinal_def nuevo_NodoCarga_def)
next
  case False
  let ?n = "length cs"
  let ?h1 = "celdas l @ [nuevo_NodoCarga c]"
  let ?h2 = "?h1[?n - 1 := (?h1 ! (?n - 1))\<lparr>siguiente_c := Some ?n\<rparr>]"
  let ?h3 = "?h2[?n := (?h2 ! ?n)\<lparr>previo_c := Some (?n - 1)\<rparr>]"
  let ?l' = "\<lparr>celdas = ?h3, cabeza_c = cabeza_c l, cola_c = Some ?n\<rparr>"
  from assms False have len: "length (celdas l) = ?n" and n: "0 < ?n"
    and cab: "cabeza_c l = Some 0" and col: "cola_c l = Some (?n - 1)"
    and nodo: "\<And>i. i < ?n \<Longrightarrow> dato_c (celdas l ! i) = cs ! i \<and>
        siguiente_c (celdas l ! i) = (if Suc i < ?n then Some (Suc i) else None)"
    by (auto simp: lista_bien_def)
  have ins: "insertarAlFinal l c = Some ?l'"
    using len n cab col by (simp add: insertarAlFinal_def Let_def)
  have ne: "?n \<noteq> ?n - 1" "?n - 1 \<noteq> ?n" using False by (cases cs; auto)+
  have viejo: "?h3 ! i = celdas l ! i" if "i < ?n - 1" for i
    using that len by (auto simp: nth_list_update nth_append)
  have ultimo: "?h3 ! (?n - 1) = (celdas l ! (?n - 1))\<lparr>siguiente_c := Some ?n\<rparr>"
    using len n ne by (auto simp: nth_list_update nth_append)
  have nuevo: "?h3 ! ?n = (nuevo_NodoCarga c)\<lparr>previo_c := Some (?n - 1)\<rparr>"
    using len n ne by (auto simp: nth_list_update nth_append)
  have "lista_bien ?l' (cs @ [c])"
    unfolding lista_bien_def
  proof (intro conjI allI impI)
    show "length (celdas ?l') = length (cs @ [c])" using len by simp
  next
    fix i assume i: "i < length (cs @ [c])"
    then consider "i < ?n - 1" | "i = ?n - 1" | "i = ?n" by force
    then show "dato_c (celdas ?l' ! i) = (cs @ [c]) ! i"
    proof cases
      case 1
      then have "i < ?n" by simp
      with 1 viejo [OF 1] nodo [of i] show ?thesis by (simp add: nth_append)
    next
      case 2
      then have "i < ?n" using n by simp
      with 2 ultimo nodo [of i] show ?thesis by (simp add: nth_append)
    next
      case 3
      with nuevo show ?thesis by (simp add: nth_append nuevo_NodoCarga_def)
    qed
    from i consider "i < ?n - 1" | "i = ?n - 1" | "i = ?n" by force
    then show "siguiente_c (celdas ?l' ! i) = (if Suc i < length (cs @ [c]) then Some (Suc i) else None)"
    proof cases
      case 1
      then have "i < ?n" "Suc i < ?n" by simp_all
      with 1 viejo [OF 1] nodo [of i] show ?thesis by simp
    next
      case 2
      then have "Suc i = ?n" using n by simp
      with 2 ultimo show ?thesis by simp
    next
      case 3
      with nuevo show ?thesis by (simp add: nuevo_NodoCarga_def)
    qed
  next
    show "cabeza_c ?l' = (if cs @ [c] = [] then None else Some 0)" using cab by simp
  next
    show "cola_c ?l' = (if cs @ [c] = [] then None else Some (length (cs @ [c]) - 1))" by simp
  qed
  with ins show ?thesis by blast
qed

lemma insertar_todos_bien:
  "lista_bien l cs \<Longrightarrow> \<exists>l'. insertar_todos l cs' = Some l' \<and> lista_bien l' (cs @ cs')"
proof (induction cs' arbitrary: l cs)
  case Nil
  then show ?case by simp
next
  case (Cons c cs')
  from insertar_bien [OF Cons.prems, of c]
  obtain l1 where l1: "insertarAlFinal l c = Some l1" "lista_bien l1 (cs @ [c])" by blast
  from Cons.IH [OF l1(2)] l1(1) show ?case by simp
qed

lemma imprimir_desde_bien:
  "lista_bien l cs \<Longrightarrow> i \<le> length cs \<Longrightarrow>
   imprimir_desde (celdas l) (if i < length cs then Some i else None) out
     = Some (out @ map Car (drop i cs))"
proof (induction "length cs - i" arbitrary: i out)
  case 0
  then show ?case by (subst imprimir_desde.simps) simp
next
  case (Suc k)
  then have i: "i < length cs" by simp
  with Suc.prems(1) have nodo: "dato_c (celdas l ! i) = cs ! i"
    "siguiente_c (celdas l ! i) = (if Suc i < length cs then Some (Suc i) else None)"
    and len: "length (celdas l) = length cs"
    by (auto simp: lista_bien_def)
  have k: "k = length cs - Suc i" using Suc.hyps(2) by simp
  have le: "Suc i \<le> length cs" using i by simp
  have "imprimir_desde (celdas l) (if i < length cs then Some i else None) out
      = imprimir_desde (celdas l) (if Suc i < length cs then Some (Suc i) else None) (out @ [Car (cs ! i)])"
    using i nodo len by (subst imprimir_desde.simps) simp
  also have "\<dots> = Some ((out @ [Car (cs ! i)]) @ map Car (drop (Suc i) cs))"
    by (rule Suc.hyps(1) [OF k Suc.prems(1) le])
  also have "(out @ [Car (cs ! i)]) @ map Car (drop (Suc i) cs) = out @ map Car (drop i cs)"
    using i by (simp flip: Cons_nth_drop_Suc)
  finally show ?case .
qed

lemma imprimirMensaje_bien:
  assumes "lista_bien l cs"
  shows "imprimirMensaje l = Some (map Car cs @ [Endl])"
proof -
  from assms have "cabeza_c l = (if 0 < length cs then Some 0 else None)"
    by (simp add: lista_bien_def)
  with imprimir_desde_bien [OF assms, of 0 "[]"] show ?thesis
    by (simp add: imprimirMensaje_def)
qed

lemma caracteres_Car: "caracteres (map Car cs @ out) = cs @ caracteres out"
  by (induction cs) simp_all

text \<open>
  Claim C9. Appending the characters \<open>c1, ..., cn\<close> in this order to an empty payload
  list succeeds, and printing the list then returns and writes exactly \<open>c1 ... cn\<close>,
  followed by the end of the line; with no character appended it writes the empty message.
  Since \<open>cs\<close> is arbitrary, printing returns after every number of appends.
\<close>

theorem mensaje_en_orden:
  "\<exists>l. insertar_todos ListaDeCarga_nueva cs = Some l \<and>
        imprimirMensaje l = Some (map Car cs @ [Endl]) \<and>
        caracteres (map Car cs @ [Endl]) = cs"
proof -
  from insertar_todos_bien [OF lista_bien_nueva, of cs]
  obtain l where l: "insertar_todos ListaDeCarga_nueva cs = Some l" "lista_bien l cs" by auto
  from l(1) imprimirMensaje_bien [OF l(2)] show ?thesis
    by (simp add: caracteres_Car)
qed

subsection \<open>The claims about the session\<close>

text \<open>
  Claim C8. From the fresh rotor and the empty payload list, the lines \<^verbatim>\<open>I\<close>,
  \<^verbatim>\<open>L,A\<close>, \<^verbatim>\<open>M,1\<close>, \<^verbatim>\<open>L,A\<close>, \<^verbatim>\<open>FIN\<close> decode the first \<open>A\<close> to \<open>A\<close> and,
  after the rotation by 1, the second \<open>A\<close> to \<open>B\<close>; \<^verbatim>\<open>FIN\<close> ends the loop, and the
  message printed at the end is \<open>AB\<close>.
\<close>

theorem escenario:
  "main_bucle [''I'', ''L,A'', ''M,1'', ''L,A'', ''FIN''] =
     Apagado
       [Texto ''--- Inicio de transmision ---'', Endl, Endl,
        Texto ''Trama: ['', Texto ''L,A'', Texto ''] -> '',
        Texto (''Fragmento '' @ [comilla]), Car (CHR ''A''),
        Texto ([comilla] @ '' decodificado como '' @ [comilla]), Car (CHR ''A''),
        Texto ([comilla] @ ''.''), Endl, Endl,
        Texto ''Trama: ['', Texto ''M,1'', Texto ''] -> '',
        Texto ''ROTANDO ROTOR +'', Entero 1, Endl, Endl,
        Texto ''Trama: ['', Texto ''L,A'', Texto ''] -> '',
        Texto (''Fragmento '' @ [comilla]), Car (CHR ''A''),
        Texto ([comilla] @ '' decodificado como '' @ [comilla]), Car (CHR ''B''),
        Texto ([comilla] @ ''.''), Endl, Endl,
        Endl, Texto ''--- Fin de transmision ---'', Endl,
        Texto ''  --- Mensaje Decodificado ---:'', Endl,
        Car (CHR ''A''), Car (CHR ''B''), Endl,
        Endl, Texto ''Sistema apagado correctamente.'', Endl]"
  by code_simp

subsection \<open>Rejected lines and overflowing rotations\<close>

lemma parsearLinea_None:
  "parsearLinea linea = None \<longleftrightarrow>
     longitud_c linea < 3 \<or> en linea 1 \<noteq> CHR '','' \<or>
     (en linea 0 \<noteq> CHR ''L'' \<and> en linea 0 \<noteq> CHR ''M'') \<or>
     (en linea 0 = CHR ''M'' \<and> \<not> es_digito (en linea (if en linea 2 = CHR ''-'' then 3 else 2)))"
proof (cases "longitud_c linea < 3 \<or> en linea 1 \<noteq> CHR '','' \<or> en linea 0 \<noteq> CHR ''M''")
  case True
  then show ?thesis by (auto simp: parsearLinea_def Let_def)
next
  case False
  then have b: "\<not> longitud_c linea < 3" "en linea 1 = CHR '',''" "en linea 0 = CHR ''M''" by auto
  show ?thesis
  proof (cases "en linea 2 = CHR ''-''")
    case True
    obtain i n where r: "leer_digitos linea 3 0 = (i, n)" by (cases "leer_digitos linea 3 0")
    have "3 \<le> i" using leer_digitos_avanza [of 3 linea 0] r by simp
    moreover have "i = 3 \<longleftrightarrow> \<not> es_digito (en linea 3)"
      using leer_digitos_quieto [of linea 3 0] r by simp
    ultimately show ?thesis using b True r by (auto simp: parsearLinea_def Let_def)
  next
    case False
    obtain i n where r: "leer_digitos linea 2 0 = (i, n)" by (cases "leer_digitos linea 2 0")
    have "i = 2 \<longleftrightarrow> \<not> es_digito (en linea 2)"
      using leer_digitos_quieto [of linea 2 0] r by simp
    then show ?thesis using b False r by (auto simp: parsearLinea_def Let_def)
  qed
qed

lemma paso_rechazo:
  assumes "parsearLinea linea = None" and "en linea 0 \<noteq> CHR 0x00" and "en linea 0 \<noteq> CHR ''I''"
    and "\<not> (en linea 0 = CHR ''F'' \<and> en linea 1 = CHR ''I'' \<and> en linea 2 = CHR ''N'')"
  shows "paso s linea =
           Sigue (s\<lparr>salida := salida s @
             [Texto ''Trama: ['', Texto (c_str linea), Texto ''] -> '',
              Texto ''ERROR: Trama mal formada'', Endl]\<rparr>)"
  using assms by (simp add: paso_def escribir_def Let_def)

lemma paso_TramaMap:
  assumes "parsearLinea linea = Some (TramaMap n)" and "en linea 0 = CHR ''M''"
    and "rotar (miRotorDeMapeo s) n = Some r'"
  shows "\<exists>s'. paso s linea = Sigue s' \<and> miRotorDeMapeo s' = r' \<and> miListaDeCarga s' = miListaDeCarga s"
  using assms by (simp add: paso_def escribir_def Let_def)

text \<open>
  Claim C3 says that the parser returns three distinct kinds of error. The parser has one
  value for every rejection, the null pointer: a line with an unknown tag, a rotation line
  without digits and a line without the comma give the same result.
\<close>

theorem errores_sin_distinguir:
  "parsearLinea ''X,5'' = None \<and> parsearLinea ''M,-'' = None \<and> parsearLinea ''L;A'' = None \<and>
   parsearLinea ''X,5'' = parsearLinea ''M,-'' \<and> parsearLinea ''M,-'' = parsearLinea ''L;A''"
  by code_simp

text \<open>
  Claim C3, amended. The parser rejects a line with one undifferentiated result, and it
  does so exactly when the line has fewer than 3 characters, or position 1 is not a comma,
  or the tag is neither \<open>L\<close> nor \<open>M\<close>, or the tag is \<open>M\<close> and no digit follows the
  optional sign. A rejected line that is not empty (its first character is not the NUL
  terminator) and is not a control line is not fatal: the round writes the one notice and
  changes nothing else in the session, and the loop goes on with the next line.
\<close>

theorem rechazo_unico:
  "(parsearLinea linea = None \<longleftrightarrow>
      longitud_c linea < 3 \<or> en linea 1 \<noteq> CHR '','' \<or>
      (en linea 0 \<noteq> CHR ''L'' \<and> en linea 0 \<noteq> CHR ''M'') \<or>
      (en linea 0 = CHR ''M'' \<and> \<not> es_digito (en linea (if en linea 2 = CHR ''-'' then 3 else 2)))) \<and>
   (parsearLinea linea = None \<and> en linea 0 \<noteq> CHR 0x00 \<and> en linea 0 \<noteq> CHR ''I'' \<and>
    \<not> (en linea 0 = CHR ''F'' \<and> en linea 1 = CHR ''I'' \<and> en linea 2 = CHR ''N'')
      \<longrightarrow> paso s linea =
            Sigue (s\<lparr>salida := salida s @
              [Texto ''Trama: ['', Texto (c_str linea), Texto ''] -> '',
               Texto ''ERROR: Trama mal formada'', Endl]\<rparr>) \<and>
          bucle s (linea # resto) =
            bucle (s\<lparr>salida := salida s @
              [Texto ''Trama: ['', Texto (c_str linea), Texto ''] -> '',
               Texto ''ERROR: Trama mal formada'', Endl]\<rparr>) resto)"
proof (intro conjI impI)
  show "parsearLinea linea = None \<longleftrightarrow>
      longitud_c linea < 3 \<or> en linea 1 \<noteq> CHR '','' \<or>
      (en linea 0 \<noteq> CHR ''L'' \<and> en linea 0 \<noteq> CHR ''M'') \<or>
      (en linea 0 = CHR ''M'' \<and> \<not> es_digito (en linea (if en linea 2 = CHR ''-'' then 3 else 2)))"
    by (rule parsearLinea_None)
next
  assume h: "parsearLinea linea = None \<and> en linea 0 \<noteq> CHR 0x00 \<and> en linea 0 \<noteq> CHR ''I'' \<and>
    \<not> (en linea 0 = CHR ''F'' \<and> en linea 1 = CHR ''I'' \<and> en linea 2 = CHR ''N'')"
  then show p: "paso s linea =
            Sigue (s\<lparr>salida := salida s @
              [Texto ''Trama: ['', Texto (c_str linea), Texto ''] -> '',
               Texto ''ERROR: Trama mal formada'', Endl]\<rparr>)"
    by (intro paso_rechazo) simp_all
  then show "bucle s (linea # resto) =
            bucle (s\<lparr>salida := salida s @
              [Texto ''Trama: ['', Texto (c_str linea), Texto ''] -> '',
               Texto ''ERROR: Trama mal formada'', Endl]\<rparr>) resto"
    by simp
qed

text \<open>The line \<^verbatim>\<open>M,-\<close> is rejected, and the loop goes on to the line \<^verbatim>\<open>L,A\<close>.\<close>

theorem rechazo_unico_witness:
  "parsearLinea ''M,-'' = None \<and> es_digito (en ''M,-'' 3) = False \<and>
   bucle Sesion_nueva [''M,-'', ''L,A''] =
     bucle (Sesion_nueva\<lparr>salida :=
        [Texto ''Trama: ['', Texto ''M,-'', Texto ''] -> '',
         Texto ''ERROR: Trama mal formada'', Endl]\<rparr>) [''L,A'']"
proof -
  have h: "parsearLinea ''M,-'' = None \<and> en ''M,-'' 0 \<noteq> CHR 0x00 \<and> en ''M,-'' 0 \<noteq> CHR ''I'' \<and>
    \<not> (en ''M,-'' 0 = CHR ''F'' \<and> en ''M,-'' 1 = CHR ''I'' \<and> en ''M,-'' 2 = CHR ''N'')"
    by code_simp
  have d: "es_digito (en ''M,-'' 3) = False" by code_simp
  have c: "c_str ''M,-'' = ''M,-''" by code_simp
  have s: "salida Sesion_nueva = []" by code_simp
  from rechazo_unico [of "''M,-''" Sesion_nueva "[''L,A'']"] h d c s
  show ?thesis by simp
qed

text \<open>
  Claim C7. Take a rotation line whose digit run is worth \<open>2 ^ 31\<close> or more, so that the
  accumulation overflows and wraps, and a session whose rotor was reached from the fresh
  one. The parser returns a rotation frame, the rotation returns, the round of the main
  loop ends normally with the payload untouched, and the rotor still has the constructor's
  store, with the 26 letters in their cyclic order from the head.
\<close>

theorem desbordamiento_no_aborta:
  assumes "signo = [] \<or> signo = ''-''" and "ds \<noteq> []" and "\<forall>c\<in>set ds. es_digito c"
    and "resto = [] \<or> \<not> es_digito (hd resto)"
    and "2 ^ 31 \<le> valor_decimal ds"
    and "aplicar_todas RotorDeMapeo_nuevo ops = Some (miRotorDeMapeo s)"
  shows "\<exists>n s'. parsearLinea (''M,'' @ signo @ ds @ resto) = Some (TramaMap n) \<and>
           rotar (miRotorDeMapeo s) n = Some (miRotorDeMapeo s') \<and>
           paso s (''M,'' @ signo @ ds @ resto) = Sigue s' \<and>
           miListaDeCarga s' = miListaDeCarga s \<and>
           nodos (miRotorDeMapeo s') = nodos RotorDeMapeo_nuevo \<and>
           (\<exists>k. k < 26 \<and>
              vuelta siguiente (nodos (miRotorDeMapeo s')) (cabeza (miRotorDeMapeo s')) 26
                = Some (rotate k alfabeto, cabeza (miRotorDeMapeo s')))"
proof -
  let ?l = "''M,'' @ signo @ ds @ resto"
  let ?n = "word_of_int ((if signo = [] then 1 else - 1) * valor_decimal ds) :: int32"
  have p: "parsearLinea ?l = Some (TramaMap ?n)"
    by (rule parsearLinea_M [OF assms(1-4)])
  have b: "rotor_bien (miRotorDeMapeo s)" using assms(6) by (rule alcanzable_bien)
  from rotar_conserva [OF b, of ?n]
  obtain r' where r': "rotar (miRotorDeMapeo s) ?n = Some r'" "rotor_bien r'" by blast
  have "en ?l 0 = CHR ''M''" by (simp add: en_def)
  from paso_TramaMap [OF p this r'(1)]
  obtain s' where s': "paso s ?l = Sigue s'" "miRotorDeMapeo s' = r'" "miListaDeCarga s' = miListaDeCarga s"
    by blast
  from ciclo_bien [OF r'(2)] p r'(1) s' show ?thesis by auto
qed

text \<open>The line \<^verbatim>\<open>M,4294967300\<close> wraps to the rotation 4, applied to the fresh session.\<close>

theorem desbordamiento_no_aborta_witness:
  "valor_decimal ''4294967300'' = 4294967300 \<and>
   parsearLinea ''M,4294967300'' = Some (TramaMap 4) \<and>
   rotar RotorDeMapeo_nuevo 4 = Some (RotorDeMapeo_nuevo\<lparr>cabeza := Some 4\<rparr>) \<and>
   (\<exists>s'. paso Sesion_nueva ''M,4294967300'' = Sigue s' \<and>
      miRotorDeMapeo s' = RotorDeMapeo_nuevo\<lparr>cabeza := Some 4\<rparr>)"
proof -
  have h1: "[] = [] \<or> [] = ''-''" by simp
  have h2: "''4294967300'' \<noteq> []" by simp
  have h3: "\<forall>c\<in>set ''4294967300''. es_digito c" by code_simp
  have h4: "[] = [] \<or> \<not> es_digito (hd [])" by simp
  have v: "valor_decimal ''4294967300'' = 4294967300" by code_simp
  have h5: "2 ^ 31 \<le> valor_decimal ''4294967300''" unfolding v by simp
  have h6: "aplicar_todas RotorDeMapeo_nuevo [] = Some (miRotorDeMapeo Sesion_nueva)" by code_simp
  have p: "parsearLinea ''M,4294967300'' = Some (TramaMap 4)" by code_simp
  have r: "rotar RotorDeMapeo_nuevo 4 = Some (RotorDeMapeo_nuevo\<lparr>cabeza := Some 4\<rparr>)" by code_simp
  have m: "miRotorDeMapeo Sesion_nueva = RotorDeMapeo_nuevo" by (simp add: Sesion_nueva_def)
  from desbordamiento_no_aborta [OF h1 h2 h3 h4 h5 h6] v p r m
  show ?thesis by auto
qed

end
